theory Spec2Isabelle
  imports Main "HOL-Library.Sublist"
begin

section \<open>Data model\<close>

text \<open>
  The \<^verbatim>\<open>Repository\<close> dataclass of \<^verbatim>\<open>github_client.py\<close>. The attributes
  \<^verbatim>\<open>private\<close> and \<^verbatim>\<open>size\<close> carry a suffix: the first is an Isabelle keyword, the
  second a constant of HOL.
\<close>

type_synonym path = string

record repository =
  name :: string
  full_name :: string
  clone_url :: string
  default_branch :: string
  private_repo :: bool
  size_repo :: int
  updated_at :: string

text \<open>
  Exceptions are values. Each carries the text that \<^verbatim>\<open>str(e)\<close> gives. An
  \<^verbatim>\<open>ApiError\<close> of the storage service also carries what the handler of
  \<^verbatim>\<open>create_folder\<close> inspects: whether the error is a path error that is a conflict.
\<close>

datatype api_error = Path_conflict | Path_other | Non_path

datatype exn =
    TimeoutExpired string
  | FileNotFoundError string
  | ApiError api_error string
  | HTTPError string
  | Exception string

fun str_exn :: "exn \<Rightarrow> string" where
  "str_exn (TimeoutExpired m) = m"
| "str_exn (FileNotFoundError m) = m"
| "str_exn (ApiError k m) = m"
| "str_exn (HTTPError m) = m"
| "str_exn (Exception m) = m"

datatype 'a result = Returned 'a | Raised exn

datatype write_mode = WriteMode_overwrite | WriteMode_add

text \<open>
  A directory tree on disk: a regular file (a path for which \<^verbatim>\<open>is_file()\<close> holds) with
  its content, a directory with its named children, or anything else (a socket, a
  dangling link). A relative path is the list of its components.
\<close>

datatype node = File string | Dir "(string \<times> node) list" | Special

section \<open>The outside world\<close>

text \<open>
  Everything the program calls and does not define is an operation on a world of type
  \<^typ>\<open>'w\<close>: the hosting API behind \<^verbatim>\<open>GitHubClient\<close>, the version control process,
  the file system, the storage API and the clock. An operation returns its answer and
  the next world, so two calls with the same arguments may answer differently.
  Acquiring and releasing the temporary directory is taken to succeed.
\<close>

record 'w ops =
  get_user_repositories :: "string option \<Rightarrow> 'w \<Rightarrow> repository list result \<times> 'w"
  get_repository :: "string \<Rightarrow> string \<Rightarrow> 'w \<Rightarrow> repository result \<times> 'w"
  mkdtemp :: "'w \<Rightarrow> path \<times> 'w"
  rmtree :: "path \<Rightarrow> 'w \<Rightarrow> 'w"
  git_clone_mirror :: "string \<Rightarrow> path \<Rightarrow> 'w \<Rightarrow> (int \<times> string) result \<times> 'w"
  read_tree :: "path \<Rightarrow> 'w \<Rightarrow> node"
  zip_write :: "path \<Rightarrow> (string list \<times> string) list \<Rightarrow> 'w \<Rightarrow> unit result \<times> 'w"
  files_create_folder_v2 :: "path \<Rightarrow> 'w \<Rightarrow> unit result \<times> 'w"
  open_rb :: "path \<Rightarrow> 'w \<Rightarrow> unit result \<times> 'w"
  getsize :: "path \<Rightarrow> 'w \<Rightarrow> nat result \<times> 'w"
  files_upload :: "path \<Rightarrow> write_mode \<Rightarrow> 'w \<Rightarrow> unit result \<times> 'w"
  files_upload_session_start :: "nat \<Rightarrow> 'w \<Rightarrow> unit result \<times> 'w"
  files_upload_session_append_v2 :: "nat \<Rightarrow> nat \<Rightarrow> 'w \<Rightarrow> unit result \<times> 'w"
  files_upload_session_finish :: "nat \<Rightarrow> nat \<Rightarrow> path \<Rightarrow> write_mode \<Rightarrow> 'w \<Rightarrow> unit result \<times> 'w"
  now_strftime :: "'w \<Rightarrow> string \<times> 'w"
  now_isoformat :: "'w \<Rightarrow> string \<times> 'w"

text \<open>
  Every function of the model returns, next to its value and the next world, the events
  it caused, in order: the calls made to the world and the lines written to the logger.
\<close>

datatype call =
    GetUserRepositories "string option"
  | GetRepository string string
  | Mkdtemp
  | Rmtree path
  | GitCloneMirror string path
  | ZipWrite path "(string list \<times> string) list"
  | FilesCreateFolderV2 path
  | OpenRb path
  | Getsize path
  | FilesUpload path write_mode
  | UploadSessionStart nat
  | UploadSessionAppendV2 nat nat
  | UploadSessionFinish nat nat path write_mode

datatype level = INFO | ERROR

datatype event = Call call | Log level string

fun calls_of :: "event list \<Rightarrow> call list" where
  "calls_of [] = []"
| "calls_of (Call c # evs) = c # calls_of evs"
| "calls_of (Log l m # evs) = calls_of evs"

section \<open>The storage client (dropbox\_client.py)\<close>

text \<open>
  \<^verbatim>\<open>create_folder\<close>: true when the folder was created or the service reports a path
  conflict, false on any other \<^verbatim>\<open>ApiError\<close>; any other exception is not caught here.
\<close>

definition create_folder :: "'w ops \<Rightarrow> path \<Rightarrow> 'w \<Rightarrow> bool result \<times> event list \<times> 'w" where
  "create_folder ops p w =
     (case files_create_folder_v2 ops p w of
        (Returned u, w') \<Rightarrow>
          (Returned True, [Call (FilesCreateFolderV2 p), Log INFO (''Created folder: '' @ p)], w')
      | (Raised (ApiError k m), w') \<Rightarrow>
          (if k = Path_conflict
           then (Returned True,
                 [Call (FilesCreateFolderV2 p), Log INFO (''Folder already exists: '' @ p)], w')
           else (Returned False,
                 [Call (FilesCreateFolderV2 p),
                  Log ERROR (''Error creating folder '' @ p @ '': '' @ m)], w'))
      | (Raised e, w') \<Rightarrow> (Raised e, [Call (FilesCreateFolderV2 p)], w'))"

definition CHUNK_SIZE :: nat where
  "CHUNK_SIZE = 4 * 1024 * 1024"

definition write_mode_of :: "bool \<Rightarrow> write_mode" where
  "write_mode_of overwrite = (if overwrite then WriteMode_overwrite else WriteMode_add)"

text \<open>
  The \<^verbatim>\<open>while\<close> loop of \<^verbatim>\<open>_upload_large_file\<close>. The position of the file object
  is the argument \<open>tell\<close>: a read of \<open>n\<close> bytes below the end of the file moves it by
  \<open>n\<close>.
\<close>

function upload_session_loop ::
  "'w ops \<Rightarrow> path \<Rightarrow> nat \<Rightarrow> bool \<Rightarrow> nat \<Rightarrow> 'w \<Rightarrow> unit result \<times> event list \<times> 'w" where
  "upload_session_loop ops dropbox_path file_size overwrite tell w =
     (if tell < file_size then
        (let remaining = file_size - tell;
             chunk_size = min CHUNK_SIZE remaining
         in if remaining \<le> CHUNK_SIZE then
              (case files_upload_session_finish ops chunk_size tell dropbox_path
                      (write_mode_of overwrite) w of
                 (r, w') \<Rightarrow>
                   (r, [Call (UploadSessionFinish chunk_size tell dropbox_path
                                (write_mode_of overwrite))], w'))
            else
              (case files_upload_session_append_v2 ops chunk_size tell w of
                 (Raised e, w') \<Rightarrow> (Raised e, [Call (UploadSessionAppendV2 chunk_size tell)], w')
               | (Returned u, w') \<Rightarrow>
                   (case upload_session_loop ops dropbox_path file_size overwrite
                           (tell + chunk_size) w' of
                      (r, evs, w'') \<Rightarrow>
                        (r, Call (UploadSessionAppendV2 chunk_size tell) # evs, w''))))
      else (Returned (), [], w))"
  by pat_completeness auto
termination
  by (relation "measure (\<lambda>(ops, p, file_size, overwrite, tell, w). file_size - tell)")
     (auto simp: CHUNK_SIZE_def)

declare upload_session_loop.simps [simp del]

definition upload_large_file ::
  "'w ops \<Rightarrow> path \<Rightarrow> nat \<Rightarrow> bool \<Rightarrow> 'w \<Rightarrow> unit result \<times> event list \<times> 'w" where
  "upload_large_file ops dropbox_path file_size overwrite w =
     (let n = min CHUNK_SIZE file_size
      in case files_upload_session_start ops n w of
           (Raised e, w') \<Rightarrow> (Raised e, [Call (UploadSessionStart n)], w')
         | (Returned u, w') \<Rightarrow>
             (case upload_session_loop ops dropbox_path file_size overwrite n w' of
                (r, evs, w'') \<Rightarrow> (r, Call (UploadSessionStart n) # evs, w'')))"

definition upload_error_log :: "path \<Rightarrow> exn \<Rightarrow> event" where
  "upload_error_log local_path e =
     (case e of
        FileNotFoundError m \<Rightarrow> Log ERROR (''Local file not found: '' @ local_path)
      | ApiError k m \<Rightarrow> Log ERROR (''Dropbox API error: '' @ m)
      | _ \<Rightarrow> Log ERROR (''Unexpected error uploading file: '' @ str_exn e))"

definition upload_body ::
  "'w ops \<Rightarrow> path \<Rightarrow> path \<Rightarrow> bool \<Rightarrow> 'w \<Rightarrow> unit result \<times> event list \<times> 'w" where
  "upload_body ops local_path dropbox_path overwrite w =
     (case open_rb ops local_path w of
        (Raised e, w1) \<Rightarrow> (Raised e, [Call (OpenRb local_path)], w1)
      | (Returned u, w1) \<Rightarrow>
          (case getsize ops local_path w1 of
             (Raised e, w2) \<Rightarrow> (Raised e, [Call (OpenRb local_path), Call (Getsize local_path)], w2)
           | (Returned file_size, w2) \<Rightarrow>
               (if file_size \<le> 150 * 1024 * 1024 then
                  (case files_upload ops dropbox_path (write_mode_of overwrite) w2 of
                     (r, w3) \<Rightarrow>
                       (r, [Call (OpenRb local_path), Call (Getsize local_path),
                            Call (FilesUpload dropbox_path (write_mode_of overwrite))], w3))
                else
                  (case upload_large_file ops dropbox_path file_size overwrite w2 of
                     (r, evs, w3) \<Rightarrow>
                       (r, [Call (OpenRb local_path), Call (Getsize local_path)] @ evs, w3)))))"

text \<open>
  \<^verbatim>\<open>upload_file\<close>: true when nothing was raised, false on every exception.
\<close>

definition upload_file ::
  "'w ops \<Rightarrow> path \<Rightarrow> path \<Rightarrow> bool \<Rightarrow> 'w \<Rightarrow> bool \<times> event list \<times> 'w" where
  "upload_file ops local_path dropbox_path overwrite w =
     (case upload_body ops local_path dropbox_path overwrite w of
        (Returned u, evs, w') \<Rightarrow>
          (True,
           evs @ [Log INFO (''Successfully uploaded '' @ local_path @ '' to '' @ dropbox_path)],
           w')
      | (Raised e, evs, w') \<Rightarrow> (False, evs @ [upload_error_log local_path e], w'))"

text \<open>The default of the parameter \<^verbatim>\<open>overwrite\<close> of \<^verbatim>\<open>upload_file\<close>.\<close>

definition overwrite_default :: bool where
  "overwrite_default = True"

section \<open>The archive (backup\_manager.py, lines 146 to 150)\<close>

text \<open>
  \<^verbatim>\<open>repo_path.rglob('*')\<close> yields every path below the directory, of any kind. The
  order within a directory is the host's; the model takes the order of the list.
\<close>

fun rglob :: "node \<Rightarrow> (string list \<times> node) list" where
  "rglob (Dir entries) =
     concat (map (\<lambda>(n, child). ([n], child) # map (\<lambda>(p, x). (n # p, x)) (rglob child)) entries)"
| "rglob (File c) = []"
| "rglob Special = []"

declare rglob.simps(1) [simp del]

text \<open>
  The loop writes one entry for every yielded path that \<^verbatim>\<open>is_file()\<close>, under the
  path relative to \<^verbatim>\<open>repo_path\<close>.
\<close>

definition archive_entries :: "node \<Rightarrow> (string list \<times> string) list" where
  "archive_entries repo_dir =
     concat (map (\<lambda>(arcname, x). case x of File c \<Rightarrow> [(arcname, c)] | _ \<Rightarrow> []) (rglob repo_dir))"

section \<open>Backing up one repository (backup\_manager.py, lines 117 to 174)\<close>

text \<open>The two \<^verbatim>\<open>except\<close> clauses of \<^verbatim>\<open>backup_repository\<close>, in their order.\<close>

definition backup_error_log :: "repository \<Rightarrow> exn \<Rightarrow> event" where
  "backup_error_log repo e =
     (case e of
        TimeoutExpired m \<Rightarrow> Log ERROR (''Timeout while cloning '' @ name repo)
      | _ \<Rightarrow> Log ERROR (''Error backing up '' @ name repo @ '': '' @ str_exn e))"

text \<open>Lines 152 to 167: the folder, then the upload. The value of \<^verbatim>\<open>create_folder\<close> is dropped.\<close>

definition upload_steps ::
  "'w ops \<Rightarrow> string \<Rightarrow> repository \<Rightarrow> path \<Rightarrow> string \<Rightarrow> 'w \<Rightarrow> bool \<times> event list \<times> 'w" where
  "upload_steps ops backup_folder repo zip_path zip_filename w =
     (let dropbox_path = backup_folder @ ''/'' @ name repo @ ''/'' @ zip_filename;
          folder_path = backup_folder @ ''/'' @ name repo
      in case create_folder ops folder_path w of
           (Raised e, evs1, w1) \<Rightarrow> (False, evs1 @ [backup_error_log repo e], w1)
         | (Returned b, evs1, w1) \<Rightarrow>
             (case upload_file ops zip_path dropbox_path overwrite_default w1 of
                (success, evs2, w2) \<Rightarrow>
                  (success,
                   evs1 @ [Log INFO (''Uploading to Dropbox: '' @ dropbox_path)] @ evs2 @
                   [if success then Log INFO (''Successfully backed up '' @ name repo)
                    else Log ERROR (''Failed to upload '' @ name repo @ '' to Dropbox'')],
                   w2)))"

text \<open>Lines 140 to 150: the archive of the mirror, then the steps above.\<close>

definition archive_steps ::
  "'w ops \<Rightarrow> string \<Rightarrow> repository \<Rightarrow> path \<Rightarrow> path \<Rightarrow> 'w \<Rightarrow> bool \<times> event list \<times> 'w" where
  "archive_steps ops backup_folder repo temp_dir repo_path w =
     (case now_strftime ops w of
        (timestamp, w1) \<Rightarrow>
          (let zip_filename = name repo @ ''_'' @ timestamp @ ''.zip'';
               zip_path = temp_dir @ ''/'' @ zip_filename;
               entries = archive_entries (read_tree ops repo_path w1)
           in case zip_write ops zip_path entries w1 of
                (Raised e, w2) \<Rightarrow>
                  (False,
                   [Log INFO (''Creating zip file: '' @ zip_filename),
                    Call (ZipWrite zip_path entries), backup_error_log repo e], w2)
              | (Returned u, w2) \<Rightarrow>
                  (case upload_steps ops backup_folder repo zip_path zip_filename w2 of
                     (success, evs, w3) \<Rightarrow>
                       (success,
                        [Log INFO (''Creating zip file: '' @ zip_filename),
                         Call (ZipWrite zip_path entries)] @ evs, w3))))"

text \<open>Lines 128 to 138: the mirror clone, then the steps above.\<close>

definition clone_steps ::
  "'w ops \<Rightarrow> string \<Rightarrow> repository \<Rightarrow> path \<Rightarrow> 'w \<Rightarrow> bool \<times> event list \<times> 'w" where
  "clone_steps ops backup_folder repo temp_dir w =
     (let repo_path = temp_dir @ ''/'' @ name repo
      in case git_clone_mirror ops (clone_url repo) repo_path w of
           (Raised e, w1) \<Rightarrow>
             (False,
              [Log INFO (''Cloning repository: '' @ clone_url repo),
               Call (GitCloneMirror (clone_url repo) repo_path), backup_error_log repo e], w1)
         | (Returned (returncode, stderr), w1) \<Rightarrow>
             (if returncode \<noteq> 0 then
                (False,
                 [Log INFO (''Cloning repository: '' @ clone_url repo),
                  Call (GitCloneMirror (clone_url repo) repo_path),
                  Log ERROR (''Failed to clone '' @ name repo @ '': '' @ stderr)], w1)
              else
                (case archive_steps ops backup_folder repo temp_dir repo_path w1 of
                   (success, evs, w2) \<Rightarrow>
                     (success,
                      [Log INFO (''Cloning repository: '' @ clone_url repo),
                       Call (GitCloneMirror (clone_url repo) repo_path)] @ evs, w2))))"

text \<open>The \<^verbatim>\<open>with\<close> block: the temporary directory lives as long as the steps.\<close>

definition backup_repository ::
  "'w ops \<Rightarrow> string \<Rightarrow> repository \<Rightarrow> 'w \<Rightarrow> bool \<times> event list \<times> 'w" where
  "backup_repository ops backup_folder repo w =
     (case mkdtemp ops w of
        (temp_dir, w1) \<Rightarrow>
          (case clone_steps ops backup_folder repo temp_dir w1 of
             (success, evs, w2) \<Rightarrow>
               (success, [Call Mkdtemp] @ evs @ [Call (Rmtree temp_dir)], rmtree ops temp_dir w2)))"

section \<open>Results\<close>

text \<open>
  The result dictionaries. A key that only some paths write is an optional field. The
  keys that both kinds of run share are the fields of \<open>counters\<close>; the keys
  \<^verbatim>\<open>full_name\<close>, \<^verbatim>\<open>private\<close> and \<^verbatim>\<open>error\<close> of a detail carry a prefix, since the
  record of a repository and the result of a full run have fields of these names.
\<close>

record backup_detail =
  repo_name :: string
  detail_full_name :: "string option"
  success :: bool
  timestamp :: string
  detail_private :: "bool option"
  size_kb :: "int option"
  detail_error :: "string option"

record counters =
  successful_backups :: nat
  failed_backups :: nat
  backup_details :: "backup_detail list"

record all_results = counters +
  total_repos :: nat
  skipped_repos :: nat
  error :: "string option"

record specific_results = counters +
  requested_repos :: nat
  not_found_repos :: nat

text \<open>Decimal digits of a number, for the one log line that prints counters.\<close>

fun str_nat :: "nat \<Rightarrow> string" where
  "str_nat n =
     (if n < 10 then [''0123456789'' ! n]
      else str_nat (n div 10) @ [''0123456789'' ! (n mod 10)])"

declare str_nat.simps [simp del]

section \<open>Backing up every repository (backup\_manager.py, lines 45 to 115)\<close>

text \<open>The first loop, lines 74 to 85: exclusion first, then privacy.\<close>

fun filter_loop ::
  "string list \<Rightarrow> bool \<Rightarrow> repository list \<Rightarrow> repository list \<Rightarrow> all_results \<Rightarrow>
   repository list \<times> all_results \<times> event list" where
  "filter_loop exclude_repos include_private [] filtered_repos results =
     (filtered_repos, results, [])"
| "filter_loop exclude_repos include_private (repo # repos) filtered_repos results =
     (if name repo \<in> set exclude_repos then
        (case filter_loop exclude_repos include_private repos filtered_repos
                (results\<lparr>skipped_repos := skipped_repos results + 1\<rparr>) of
           (f, r, evs) \<Rightarrow>
             (f, r, Log INFO (''Skipping excluded repository: '' @ name repo) # evs))
      else if \<not> include_private \<and> private_repo repo then
        (case filter_loop exclude_repos include_private repos filtered_repos
                (results\<lparr>skipped_repos := skipped_repos results + 1\<rparr>) of
           (f, r, evs) \<Rightarrow>
             (f, r, Log INFO (''Skipping private repository: '' @ name repo) # evs))
      else filter_loop exclude_repos include_private repos (filtered_repos @ [repo]) results)"

text \<open>The second loop, lines 88 to 105.\<close>

fun backup_loop ::
  "'w ops \<Rightarrow> string \<Rightarrow> repository list \<Rightarrow> all_results \<Rightarrow> 'w \<Rightarrow>
   all_results \<times> event list \<times> 'w" where
  "backup_loop ops backup_folder [] results w = (results, [], w)"
| "backup_loop ops backup_folder (repo # repos) results w =
     (case backup_repository ops backup_folder repo w of
        (ok, evs1, w1) \<Rightarrow>
          (case now_isoformat ops w1 of
             (ts, w2) \<Rightarrow>
               (let detail = \<lparr>repo_name = name repo, detail_full_name = Some (full_name repo),
                              success = ok, timestamp = ts,
                              detail_private = Some (private_repo repo),
                              size_kb = Some (size_repo repo), detail_error = None\<rparr>;
                    results1 = results\<lparr>backup_details := backup_details results @ [detail]\<rparr>;
                    results2 =
                      (if ok
                       then results1\<lparr>successful_backups := successful_backups results1 + 1\<rparr>
                       else results1\<lparr>failed_backups := failed_backups results1 + 1\<rparr>)
                in case backup_loop ops backup_folder repos results2 w2 of
                     (r, evs2, w3) \<Rightarrow>
                       (r,
                        Log INFO (''Starting backup for repository: '' @ name repo) # evs1 @ evs2,
                        w3))))"

definition completed_log :: "all_results \<Rightarrow> event" where
  "completed_log results =
     Log INFO (''Backup completed. Success: '' @ str_nat (successful_backups results) @
               '', Failed: '' @ str_nat (failed_backups results) @
               '', Skipped: '' @ str_nat (skipped_repos results))"

definition initial_all_results :: all_results where
  "initial_all_results =
     \<lparr>successful_backups = 0, failed_backups = 0, backup_details = [],
      total_repos = 0, skipped_repos = 0, error = None\<rparr>"

text \<open>\<^verbatim>\<open>exclude_repos or []\<close>: a missing list is the empty one.\<close>

fun or_empty :: "string list option \<Rightarrow> string list" where
  "or_empty None = []"
| "or_empty (Some xs) = xs"

text \<open>The listing is the only call under the \<^verbatim>\<open>try\<close> that raises in this model.\<close>

definition backup_all_repositories ::
  "'w ops \<Rightarrow> string \<Rightarrow> string option \<Rightarrow> string list option \<Rightarrow> bool \<Rightarrow> 'w \<Rightarrow>
   all_results \<times> event list \<times> 'w" where
  "backup_all_repositories ops backup_folder username exclude_repos include_private w =
     (let exclude = or_empty exclude_repos
      in case get_user_repositories ops username w of
           (Raised e, w1) \<Rightarrow>
             (initial_all_results\<lparr>error := Some (str_exn e)\<rparr>,
              [Call (GetUserRepositories username),
               Log ERROR (''Error during backup process: '' @ str_exn e)], w1)
         | (Returned repos, w1) \<Rightarrow>
             (case filter_loop exclude include_private repos []
                     (initial_all_results\<lparr>total_repos := length repos\<rparr>) of
                (filtered_repos, results1, evs1) \<Rightarrow>
                  (case backup_loop ops backup_folder filtered_repos results1 w1 of
                     (results2, evs2, w2) \<Rightarrow>
                       (results2,
                        [Call (GetUserRepositories username)] @ evs1 @ evs2 @
                        [completed_log results2], w2))))"

section \<open>Backing up named repositories (backup\_manager.py, lines 176 to 234)\<close>

text \<open>The \<^verbatim>\<open>except\<close> clause, lines 223 to 232.\<close>

definition record_failure ::
  "'w ops \<Rightarrow> string \<Rightarrow> exn \<Rightarrow> specific_results \<Rightarrow> 'w \<Rightarrow> specific_results \<times> event list \<times> 'w" where
  "record_failure ops rname e results w =
     (case now_isoformat ops w of
        (ts, w1) \<Rightarrow>
          (let results1 = results\<lparr>failed_backups := failed_backups results + 1\<rparr>;
               detail = \<lparr>repo_name = rname, detail_full_name = None, success = False,
                         timestamp = ts, detail_private = None, size_kb = None,
                         detail_error = Some (str_exn e)\<rparr>
           in (results1\<lparr>backup_details := backup_details results1 @ [detail]\<rparr>,
               [Log ERROR (''Error processing repository '' @ rname @ '': '' @ str_exn e)], w1)))"

text \<open>Lines 208 to 221: the backup of a resolved repository and its detail.\<close>

definition backup_resolved ::
  "'w ops \<Rightarrow> string \<Rightarrow> repository \<Rightarrow> specific_results \<Rightarrow> 'w \<Rightarrow>
   specific_results \<times> event list \<times> 'w" where
  "backup_resolved ops backup_folder repo results w =
     (case backup_repository ops backup_folder repo w of
        (ok, evs, w1) \<Rightarrow>
          (case now_isoformat ops w1 of
             (ts, w2) \<Rightarrow>
               (let detail = \<lparr>repo_name = name repo, detail_full_name = Some (full_name repo),
                              success = ok, timestamp = ts, detail_private = None,
                              size_kb = None, detail_error = None\<rparr>;
                    results1 = results\<lparr>backup_details := backup_details results @ [detail]\<rparr>
                in (if ok
                    then results1\<lparr>successful_backups := successful_backups results1 + 1\<rparr>
                    else results1\<lparr>failed_backups := failed_backups results1 + 1\<rparr>,
                    evs, w2))))"

text \<open>\<^verbatim>\<open>if username:\<close> holds for a name that is given and not empty.\<close>

fun truthy :: "string option \<Rightarrow> bool" where
  "truthy None = False"
| "truthy (Some u) = (u \<noteq> [])"

text \<open>
  The body of the loop, lines 195 to 232. Without a user name the listing is fetched
  here, inside the loop, and searched for the first repository of the requested name.
\<close>

definition specific_step ::
  "'w ops \<Rightarrow> string \<Rightarrow> string option \<Rightarrow> string \<Rightarrow> specific_results \<Rightarrow> 'w \<Rightarrow>
   specific_results \<times> event list \<times> 'w" where
  "specific_step ops backup_folder username rname results w =
     (if truthy username then
        (case get_repository ops (case username of Some u \<Rightarrow> u | None \<Rightarrow> []) rname w of
           (Raised e, w1) \<Rightarrow>
             (case record_failure ops rname e results w1 of
                (r, evs, w2) \<Rightarrow>
                  (r, Call (GetRepository (case username of Some u \<Rightarrow> u | None \<Rightarrow> []) rname) # evs,
                   w2))
         | (Returned repo, w1) \<Rightarrow>
             (case backup_resolved ops backup_folder repo results w1 of
                (r, evs, w2) \<Rightarrow>
                  (r, Call (GetRepository (case username of Some u \<Rightarrow> u | None \<Rightarrow> []) rname) # evs,
                   w2)))
      else
        (case get_user_repositories ops None w of
           (Raised e, w1) \<Rightarrow>
             (case record_failure ops rname e results w1 of
                (r, evs, w2) \<Rightarrow> (r, Call (GetUserRepositories None) # evs, w2))
         | (Returned all_repos, w1) \<Rightarrow>
             (case find (\<lambda>r. name r = rname) all_repos of
                None \<Rightarrow>
                  (results\<lparr>not_found_repos := not_found_repos results + 1\<rparr>,
                   [Call (GetUserRepositories None),
                    Log ERROR (''Repository not found: '' @ rname)], w1)
              | Some user_repo \<Rightarrow>
                  (case backup_resolved ops backup_folder user_repo results w1 of
                     (r, evs, w2) \<Rightarrow> (r, Call (GetUserRepositories None) # evs, w2)))))"

fun specific_loop ::
  "'w ops \<Rightarrow> string \<Rightarrow> string option \<Rightarrow> string list \<Rightarrow> specific_results \<Rightarrow> 'w \<Rightarrow>
   specific_results \<times> event list \<times> 'w" where
  "specific_loop ops backup_folder username [] results w = (results, [], w)"
| "specific_loop ops backup_folder username (rname # rnames) results w =
     (case specific_step ops backup_folder username rname results w of
        (results1, evs1, w1) \<Rightarrow>
          (case specific_loop ops backup_folder username rnames results1 w1 of
             (results2, evs2, w2) \<Rightarrow> (results2, evs1 @ evs2, w2)))"

definition backup_specific_repositories ::
  "'w ops \<Rightarrow> string \<Rightarrow> string list \<Rightarrow> string option \<Rightarrow> 'w \<Rightarrow>
   specific_results \<times> event list \<times> 'w" where
  "backup_specific_repositories ops backup_folder repo_names username w =
     specific_loop ops backup_folder username repo_names
       \<lparr>successful_backups = 0, failed_backups = 0, backup_details = [],
        requested_repos = length repo_names, not_found_repos = 0\<rparr> w"

section \<open>Conditions and concrete worlds used by the properties\<close>


definition skip_log :: "string list \<Rightarrow> bool \<Rightarrow> repository \<Rightarrow> event list" where
  "skip_log exclude_repos include_private repo =
     (if name repo \<in> set exclude_repos
      then [Log INFO (''Skipping excluded repository: '' @ name repo)]
      else if \<not> include_private \<and> private_repo repo
      then [Log INFO (''Skipping private repository: '' @ name repo)]
      else [])"



text \<open>
  The calls that \<^verbatim>\<open>upload_file\<close> can make when it writes with the given mode, and the
  write mode that a call carries.
\<close>

fun upload_call :: "write_mode \<Rightarrow> call \<Rightarrow> bool" where
  "upload_call m (OpenRb p) = True"
| "upload_call m (Getsize p) = True"
| "upload_call m (FilesUpload p m') = (m' = m)"
| "upload_call m (UploadSessionStart n) = True"
| "upload_call m (UploadSessionAppendV2 n k) = True"
| "upload_call m (UploadSessionFinish n k p m') = (m' = m)"
| "upload_call m c = False"

text \<open>
  A clone has succeeded when the process ran and exited with 0; a call has returned
  when it raised nothing.
\<close>

definition clone_ok :: "(int \<times> string) result \<Rightarrow> bool" where
  "clone_ok cr = (case cr of Returned (returncode, stderr) \<Rightarrow> returncode = 0 | Raised e \<Rightarrow> False)"

definition returned :: "'a result \<Rightarrow> bool" where
  "returned r = (case r of Returned x \<Rightarrow> True | Raised e \<Rightarrow> False)"

fun mode_of :: "call \<Rightarrow> write_mode option" where
  "mode_of (FilesUpload p m) = Some m"
| "mode_of (UploadSessionFinish n k p m) = Some m"
| "mode_of c = None"

text \<open>
  Concrete inputs: two repositories, the tree of a mirror, and operations that succeed
  in every world and leave it as it is, with variants in which one call fails or the
  archive is larger than the threshold of the simple upload.
\<close>

definition repo_a :: repository where
  "repo_a = \<lparr>name = ''a'', full_name = ''u/a'', clone_url = ''https://h/u/a.git'',
             default_branch = ''main'', private_repo = False, size_repo = 100,
             updated_at = ''2023-01-01T00:00:00Z''\<rparr>"

definition repo_b :: repository where
  "repo_b = \<lparr>name = ''b'', full_name = ''u/b'', clone_url = ''https://h/u/b.git'',
             default_branch = ''main'', private_repo = True, size_repo = 50,
             updated_at = ''2023-01-02T00:00:00Z''\<rparr>"

definition mirror :: node where
  "mirror = Dir [(''HEAD'', File ''ref: refs/heads/main''),
                 (''hooks'', Dir []),
                 (''objects'', Dir [(''pack'', Dir [(''p.idx'', File ''01'')]), (''info'', Special)])]"

definition calm_ops :: "repository list \<Rightarrow> 'w ops" where
  "calm_ops listing =
     \<lparr>get_user_repositories = (\<lambda>u w. (Returned listing, w)),
      get_repository =
        (\<lambda>owner rname w.
           (case find (\<lambda>r. name r = rname) listing of
              Some r \<Rightarrow> Returned r
            | None \<Rightarrow> Raised (HTTPError ''404 Client Error: Not Found''), w)),
      mkdtemp = (\<lambda>w. (''/tmp/t'', w)),
      rmtree = (\<lambda>p w. w),
      git_clone_mirror = (\<lambda>url p w. (Returned (0, []), w)),
      read_tree = (\<lambda>p w. mirror),
      zip_write = (\<lambda>p entries w. (Returned (), w)),
      files_create_folder_v2 = (\<lambda>p w. (Returned (), w)),
      open_rb = (\<lambda>p w. (Returned (), w)),
      getsize = (\<lambda>p w. (Returned 2048, w)),
      files_upload = (\<lambda>p m w. (Returned (), w)),
      files_upload_session_start = (\<lambda>n w. (Returned (), w)),
      files_upload_session_append_v2 = (\<lambda>n k w. (Returned (), w)),
      files_upload_session_finish = (\<lambda>n k p m w. (Returned (), w)),
      now_strftime = (\<lambda>w. (''20240101_120000'', w)),
      now_isoformat = (\<lambda>w. (''2024-01-01T12:00:00'', w))\<rparr>"

definition folder_denied_ops :: "unit ops" where
  "folder_denied_ops =
     (calm_ops [repo_a])
       \<lparr>files_create_folder_v2 := (\<lambda>p w. (Raised (ApiError Non_path ''insufficient_space''), w))\<rparr>"

definition clone_denied_ops :: "unit ops" where
  "clone_denied_ops =
     (calm_ops [repo_a])
       \<lparr>git_clone_mirror := (\<lambda>url p w. (Returned (128, ''fatal: repository not found''), w))\<rparr>"

definition large_ops :: "unit ops" where
  "large_ops = (calm_ops [repo_a])\<lparr>getsize := (\<lambda>p w. (Returned (150 * 1024 * 1024 + 1), w))\<rparr>"

text \<open>
  The repositories that a trace shows as attempted, by the address of each clone, and the
  number of times a trace fetches the listing.
\<close>

fun cloned :: "call \<Rightarrow> string list" where
  "cloned (GitCloneMirror url p) = [url]"
| "cloned c = []"

definition cloned_urls :: "event list \<Rightarrow> string list" where
  "cloned_urls evs = concat (map cloned (calls_of evs))"

fun is_listing :: "call \<Rightarrow> bool" where
  "is_listing (GetUserRepositories u) = True"
| "is_listing c = False"

definition listing_count :: "event list \<Rightarrow> nat" where
  "listing_count evs = length (filter is_listing (calls_of evs))"

text \<open>
  More worlds: one whose listing call fails, and one with a counter as its state, whose
  listing holds a repository at the first call and none afterwards.
\<close>

definition listing_down_ops :: "unit ops" where
  "listing_down_ops =
     (calm_ops [repo_a])
       \<lparr>get_user_repositories := (\<lambda>u w. (Raised (HTTPError ''503 Server Error''), w))\<rparr>"

definition shifting_ops :: "nat ops" where
  "shifting_ops =
     (calm_ops [])
       \<lparr>get_user_repositories := (\<lambda>u w. (Returned (if w = 0 then [repo_a] else []), Suc w))\<rparr>"

section \<open>Traces\<close>

lemma calls_of_append [simp]: "calls_of (xs @ ys) = calls_of xs @ calls_of ys"
  by (induction xs rule: calls_of.induct) simp_all

lemma cloned_urls_append [simp]: "cloned_urls (xs @ ys) = cloned_urls xs @ cloned_urls ys"
  by (simp add: cloned_urls_def)

lemma cloned_urls_simps [simp]:
  "cloned_urls [] = []"
  "cloned_urls (Log l m # evs) = cloned_urls evs"
  "cloned_urls (Call c # evs) = cloned c @ cloned_urls evs"
  by (simp_all add: cloned_urls_def)

lemma listing_count_simps [simp]:
  "listing_count [] = 0"
  "listing_count (Log l m # evs) = listing_count evs"
  "listing_count (Call c # evs) = (if is_listing c then 1 else 0) + listing_count evs"
  "listing_count (xs @ ys) = listing_count xs + listing_count ys"
  by (simp_all add: listing_count_def)

section \<open>Properties of the archive\<close>













section \<open>Properties of the backup of one repository\<close>

lemma create_folder_calls:
  "create_folder ops p w = (r, evs, w') \<Longrightarrow> calls_of evs = [FilesCreateFolderV2 p]"
  by (auto simp: create_folder_def split: prod.splits result.splits exn.splits if_splits)

lemma create_folder_value:
  "create_folder ops p w = (r, evs, w') \<Longrightarrow>
   r = (case fst (files_create_folder_v2 ops p w) of
          Returned u \<Rightarrow> Returned True
        | Raised (ApiError k m) \<Rightarrow> Returned (k = Path_conflict)
        | Raised e \<Rightarrow> Raised e)"
  by (auto simp: create_folder_def split: prod.splits result.splits exn.splits if_splits)

lemma upload_session_loop_calls:
  "upload_session_loop ops p fs ow t w = (r, evs, w') \<Longrightarrow>
   list_all (upload_call (write_mode_of ow)) (calls_of evs)"
proof (induction ops p fs ow t w arbitrary: r evs w' rule: upload_session_loop.induct)
  case (1 ops p fs ow t w)
  note run = "1.prems" [unfolded upload_session_loop.simps [of ops p fs ow t w]]
  show ?case
  proof (cases "t < fs")
    case False
    with run show ?thesis by simp
  next
    case True
    show ?thesis
    proof (cases "fs - t \<le> CHUNK_SIZE")
      case fin: True
      with True run show ?thesis
        by (auto simp: Let_def split: prod.splits)
    next
      case more: False
      obtain ar w1 where ap: "files_upload_session_append_v2 ops (min CHUNK_SIZE (fs - t)) t w = (ar, w1)"
        by (cases "files_upload_session_append_v2 ops (min CHUNK_SIZE (fs - t)) t w")
      show ?thesis
      proof (cases ar)
        case (Raised e)
        with True more ap run show ?thesis by (auto simp: Let_def)
      next
        case (Returned u)
        obtain r2 evs2 w2 where
          rec: "upload_session_loop ops p fs ow (t + min CHUNK_SIZE (fs - t)) w1 = (r2, evs2, w2)"
          by (cases "upload_session_loop ops p fs ow (t + min CHUNK_SIZE (fs - t)) w1")
        have "list_all (upload_call (write_mode_of ow)) (calls_of evs2)"
          using "1.IH" [OF True refl refl more ap [symmetric] Returned rec] .
        moreover have "evs = Call (UploadSessionAppendV2 (min CHUNK_SIZE (fs - t)) t) # evs2"
          using True more ap Returned rec run
          by (simp add: Let_def)
        ultimately show ?thesis by simp
      qed
    qed
  qed
qed

lemma upload_large_file_calls:
  "upload_large_file ops p fs ow w = (r, evs, w') \<Longrightarrow>
   list_all (upload_call (write_mode_of ow)) (calls_of evs)"
  by (auto simp: upload_large_file_def Let_def
      split: prod.splits result.splits dest: upload_session_loop_calls)

lemma upload_body_calls:
  "upload_body ops lp p ow w = (r, evs, w') \<Longrightarrow>
   list_all (upload_call (write_mode_of ow)) (calls_of evs) \<and> calls_of evs \<noteq> []"
  by (auto simp: upload_body_def
      split: prod.splits result.splits if_splits dest: upload_large_file_calls)

lemma upload_file_calls:
  "upload_file ops lp p ow w = (ok, evs, w') \<Longrightarrow>
   list_all (upload_call (write_mode_of ow)) (calls_of evs) \<and> calls_of evs \<noteq> []"
  by (auto simp: upload_file_def upload_error_log_def
      split: prod.splits result.splits exn.splits dest: upload_body_calls)

lemma calls_of_backup_error_log [simp]: "calls_of [backup_error_log repo e] = []"
  by (cases e) (simp_all add: backup_error_log_def)

lemma upload_steps_trace:
  assumes cf: "create_folder ops (bf @ ''/'' @ name repo) w4 = (fr, fevs, w5)"
    and up: "upload_file ops zip_path (bf @ ''/'' @ name repo @ ''/'' @ zip_filename)
               overwrite_default w5 = (ur, uevs, w6)"
    and run: "upload_steps ops bf repo zip_path zip_filename w4 = (ok, evs, w')"
  shows "ok = (returned fr \<and> ur) \<and>
         calls_of evs =
           FilesCreateFolderV2 (bf @ ''/'' @ name repo) #
           (if returned fr then calls_of uevs else [])"
proof (cases fr)
  case (Raised e)
  with run cf create_folder_calls [OF cf] show ?thesis
    by (auto simp: upload_steps_def returned_def)
next
  case (Returned b)
  with run cf up create_folder_calls [OF cf] show ?thesis
    by (cases ur) (auto simp: upload_steps_def returned_def)
qed

lemma archive_steps_trace:
  assumes ts: "now_strftime ops w2 = (stamp, w3)"
    and zf: "zip_filename = name repo @ ''_'' @ stamp @ ''.zip''"
    and zp: "zip_path = temp_dir @ ''/'' @ zip_filename"
    and en: "entries = archive_entries (read_tree ops repo_path w3)"
    and zw: "zip_write ops zip_path entries w3 = (zr, w4)"
    and cf: "create_folder ops (bf @ ''/'' @ name repo) w4 = (fr, fevs, w5)"
    and up: "upload_file ops zip_path (bf @ ''/'' @ name repo @ ''/'' @ zip_filename)
               overwrite_default w5 = (ur, uevs, w6)"
    and run: "archive_steps ops bf repo temp_dir repo_path w2 = (ok, evs, w')"
  shows "ok = (returned zr \<and> returned fr \<and> ur) \<and>
         calls_of evs =
           ZipWrite zip_path entries #
           (if returned zr then
              FilesCreateFolderV2 (bf @ ''/'' @ name repo) #
              (if returned fr then calls_of uevs else [])
            else [])"
proof (cases zr)
  case (Raised e)
  with run ts zw show ?thesis
    unfolding zf zp en by (auto simp: archive_steps_def returned_def Let_def)
next
  case (Returned u)
  obtain ok2 evs2 w7 where
    us: "upload_steps ops bf repo zip_path zip_filename w4 = (ok2, evs2, w7)"
    by (cases "upload_steps ops bf repo zip_path zip_filename w4")
  from upload_steps_trace [OF cf up us] Returned run ts zw us show ?thesis
    unfolding zf zp en by (auto simp: archive_steps_def returned_def Let_def)
qed

lemma clone_steps_trace:
  assumes cl: "git_clone_mirror ops (clone_url repo) repo_path w1 = (cr, w2)"
    and rp: "repo_path = temp_dir @ ''/'' @ name repo"
    and ts: "now_strftime ops w2 = (stamp, w3)"
    and zf: "zip_filename = name repo @ ''_'' @ stamp @ ''.zip''"
    and zp: "zip_path = temp_dir @ ''/'' @ zip_filename"
    and en: "entries = archive_entries (read_tree ops repo_path w3)"
    and zw: "zip_write ops zip_path entries w3 = (zr, w4)"
    and cf: "create_folder ops (bf @ ''/'' @ name repo) w4 = (fr, fevs, w5)"
    and up: "upload_file ops zip_path (bf @ ''/'' @ name repo @ ''/'' @ zip_filename)
               overwrite_default w5 = (ur, uevs, w6)"
    and run: "clone_steps ops bf repo temp_dir w1 = (ok, evs, w')"
  shows "ok = (clone_ok cr \<and> returned zr \<and> returned fr \<and> ur) \<and>
         calls_of evs =
           GitCloneMirror (clone_url repo) repo_path #
           (if clone_ok cr then
              ZipWrite zip_path entries #
              (if returned zr then
                 FilesCreateFolderV2 (bf @ ''/'' @ name repo) #
                 (if returned fr then calls_of uevs else [])
               else [])
            else [])"
proof (cases "clone_ok cr")
  case False
  with run cl show ?thesis
    unfolding rp
    by (auto simp: clone_steps_def clone_ok_def Let_def split: result.splits if_splits)
next
  case True
  then obtain stderr where cr: "cr = Returned (0, stderr)"
    by (auto simp: clone_ok_def split: result.splits)
  obtain ok2 evs2 w7 where
    ar: "archive_steps ops bf repo temp_dir repo_path w2 = (ok2, evs2, w7)"
    by (cases "archive_steps ops bf repo temp_dir repo_path w2")
  from archive_steps_trace [OF ts zf zp en zw cf up ar] True run cl cr ar show ?thesis
    unfolding rp by (auto simp: clone_steps_def Let_def)
qed

lemma backup_repository_trace:
  assumes tmp: "mkdtemp ops w = (temp_dir, w1)"
    and rp: "repo_path = temp_dir @ ''/'' @ name repo"
    and cl: "git_clone_mirror ops (clone_url repo) repo_path w1 = (cr, w2)"
    and ts: "now_strftime ops w2 = (stamp, w3)"
    and zf: "zip_filename = name repo @ ''_'' @ stamp @ ''.zip''"
    and zp: "zip_path = temp_dir @ ''/'' @ zip_filename"
    and en: "entries = archive_entries (read_tree ops repo_path w3)"
    and zw: "zip_write ops zip_path entries w3 = (zr, w4)"
    and cf: "create_folder ops (bf @ ''/'' @ name repo) w4 = (fr, fevs, w5)"
    and up: "upload_file ops zip_path (bf @ ''/'' @ name repo @ ''/'' @ zip_filename)
               overwrite_default w5 = (ur, uevs, w6)"
    and run: "backup_repository ops bf repo w = (ok, evs, w')"
  shows "ok = (clone_ok cr \<and> returned zr \<and> returned fr \<and> ur) \<and>
         calls_of evs =
           Mkdtemp # GitCloneMirror (clone_url repo) repo_path #
           (if clone_ok cr then
              ZipWrite zip_path entries #
              (if returned zr then
                 FilesCreateFolderV2 (bf @ ''/'' @ name repo) #
                 (if returned fr then calls_of uevs else [])
               else [])
            else []) @ [Rmtree temp_dir]"
proof -
  obtain ok2 evs2 w7 where cs: "clone_steps ops bf repo temp_dir w1 = (ok2, evs2, w7)"
    by (cases "clone_steps ops bf repo temp_dir w1")
  from clone_steps_trace [OF cl rp ts zf zp en zw cf up cs] run tmp cs show ?thesis
    by (auto simp: backup_repository_def)
qed

lemma backup_repository_cases:
  obtains temp_dir w1 cr w2 stamp w3 zr w4 fr fevs w5 ur uevs w6 where
    "mkdtemp ops w = (temp_dir, w1)"
    "git_clone_mirror ops (clone_url repo) (temp_dir @ ''/'' @ name repo) w1 = (cr, w2)"
    "now_strftime ops w2 = (stamp, w3)"
    "zip_write ops (temp_dir @ ''/'' @ name repo @ ''_'' @ stamp @ ''.zip'')
       (archive_entries (read_tree ops (temp_dir @ ''/'' @ name repo) w3)) w3 = (zr, w4)"
    "create_folder ops (bf @ ''/'' @ name repo) w4 = (fr, fevs, w5)"
    "upload_file ops (temp_dir @ ''/'' @ name repo @ ''_'' @ stamp @ ''.zip'')
       (bf @ ''/'' @ name repo @ ''/'' @ name repo @ ''_'' @ stamp @ ''.zip'')
       overwrite_default w5 = (ur, uevs, w6)"
proof -
  obtain temp_dir w1 where 1: "mkdtemp ops w = (temp_dir, w1)"
    by (cases "mkdtemp ops w")
  obtain cr w2 where
    2: "git_clone_mirror ops (clone_url repo) (temp_dir @ ''/'' @ name repo) w1 = (cr, w2)"
    by (cases "git_clone_mirror ops (clone_url repo) (temp_dir @ ''/'' @ name repo) w1")
  obtain stamp w3 where 3: "now_strftime ops w2 = (stamp, w3)"
    by (cases "now_strftime ops w2")
  obtain zr w4 where
    4: "zip_write ops (temp_dir @ ''/'' @ name repo @ ''_'' @ stamp @ ''.zip'')
       (archive_entries (read_tree ops (temp_dir @ ''/'' @ name repo) w3)) w3 = (zr, w4)"
    by (cases "zip_write ops (temp_dir @ ''/'' @ name repo @ ''_'' @ stamp @ ''.zip'')
       (archive_entries (read_tree ops (temp_dir @ ''/'' @ name repo) w3)) w3")
  obtain fr fevs w5 where 5: "create_folder ops (bf @ ''/'' @ name repo) w4 = (fr, fevs, w5)"
    by (cases "create_folder ops (bf @ ''/'' @ name repo) w4")
  obtain ur uevs w6 where
    6: "upload_file ops (temp_dir @ ''/'' @ name repo @ ''_'' @ stamp @ ''.zip'')
       (bf @ ''/'' @ name repo @ ''/'' @ name repo @ ''_'' @ stamp @ ''.zip'')
       overwrite_default w5 = (ur, uevs, w6)"
    by (cases "upload_file ops (temp_dir @ ''/'' @ name repo @ ''_'' @ stamp @ ''.zip'')
       (bf @ ''/'' @ name repo @ ''/'' @ name repo @ ''_'' @ stamp @ ''.zip'')
       overwrite_default w5")
  from that [OF 1 2 3 4 5 6] show thesis .
qed

lemma upload_call_mode: "upload_call m c \<Longrightarrow> mode_of c = Some m' \<Longrightarrow> m' = m"
  by (cases c) simp_all

lemma backup_repository_overwrites:
  assumes "backup_repository ops bf repo w = (ok, evs, w')"
    and "c \<in> set (calls_of evs)"
    and "mode_of c = Some m"
  shows "m = WriteMode_overwrite"
proof -
  obtain temp_dir w1 cr w2 stamp w3 zr w4 fr fevs w5 ur uevs w6 where
    tmp: "mkdtemp ops w = (temp_dir, w1)" and
    cl: "git_clone_mirror ops (clone_url repo) (temp_dir @ ''/'' @ name repo) w1 = (cr, w2)" and
    ts: "now_strftime ops w2 = (stamp, w3)" and
    zw: "zip_write ops (temp_dir @ ''/'' @ name repo @ ''_'' @ stamp @ ''.zip'')
       (archive_entries (read_tree ops (temp_dir @ ''/'' @ name repo) w3)) w3 = (zr, w4)" and
    cf: "create_folder ops (bf @ ''/'' @ name repo) w4 = (fr, fevs, w5)" and
    up: "upload_file ops (temp_dir @ ''/'' @ name repo @ ''_'' @ stamp @ ''.zip'')
       (bf @ ''/'' @ name repo @ ''/'' @ name repo @ ''_'' @ stamp @ ''.zip'')
       overwrite_default w5 = (ur, uevs, w6)"
    by (rule backup_repository_cases)
  from backup_repository_trace [OF tmp refl cl ts refl refl refl zw cf up assms(1)]
  have "c \<in> set (calls_of uevs) \<or> mode_of c = None"
    using assms(2) by (auto split: if_splits)
  moreover have "list_all (upload_call WriteMode_overwrite) (calls_of uevs)"
    using upload_file_calls [OF up] by (simp add: overwrite_default_def write_mode_of_def)
  ultimately show ?thesis
    using assms(3) by (auto simp: list_all_iff dest: upload_call_mode)
qed

lemmas world_defs = calm_ops_def repo_a_def repo_b_def mirror_def

lemmas run_defs = backup_repository_def clone_steps_def archive_steps_def upload_steps_def
  create_folder_def upload_file_def upload_body_def overwrite_default_def write_mode_of_def
  archive_entries_def rglob.simps(1) Let_def

lemma clone_steps_fail:
  assumes "git_clone_mirror ops (clone_url repo) (temp_dir @ ''/'' @ name repo) w1 = (cr, w2)"
    and "\<not> clone_ok cr"
  shows "\<exists>evs. clone_steps ops bf repo temp_dir w1 = (False, evs, w2) \<and>
           calls_of evs = [GitCloneMirror (clone_url repo) (temp_dir @ ''/'' @ name repo)]"
  using assms
  by (auto simp: clone_steps_def clone_ok_def Let_def split: result.splits)

lemma backup_loop_details:
  "backup_loop ops bf repos results w = (r, evs, w') \<Longrightarrow>
   \<exists>new. backup_details r = backup_details results @ new \<and> length new = length repos"
proof (induction repos arbitrary: results w r evs w')
  case Nil
  then show ?case by simp
next
  case (Cons repo repos)
  obtain ok evs1 w1 where br: "backup_repository ops bf repo w = (ok, evs1, w1)"
    by (cases "backup_repository ops bf repo w")
  obtain ts w2 where ni: "now_isoformat ops w1 = (ts, w2)"
    by (cases "now_isoformat ops w1")
  define detail where
    "detail = \<lparr>repo_name = name repo, detail_full_name = Some (full_name repo), success = ok,
               timestamp = ts, detail_private = Some (private_repo repo),
               size_kb = Some (size_repo repo), detail_error = None\<rparr>"
  define results2 where
    "results2 =
       (if ok
        then results\<lparr>backup_details := backup_details results @ [detail],
               successful_backups := successful_backups results + 1\<rparr>
        else results\<lparr>backup_details := backup_details results @ [detail],
               failed_backups := failed_backups results + 1\<rparr>)"
  obtain evs2 where rest: "backup_loop ops bf repos results2 w2 = (r, evs2, w')"
    using Cons.prems br ni
    by (auto simp: Let_def results2_def detail_def split: prod.splits if_splits)
  from Cons.IH [OF rest] obtain new where
    "backup_details r = backup_details results2 @ new" "length new = length repos"
    by blast
  then have "backup_details r = backup_details results @ (detail # new) \<and>
             length (detail # new) = length (repo # repos)"
    by (simp add: results2_def)
  then show ?case by blast
qed

lemma backup_loop_head_detail:
  assumes "backup_loop ops bf (repo # repos) results w = (r, evs, w')"
  shows "repo_name (backup_details r ! length (backup_details results)) = name repo \<and>
         success (backup_details r ! length (backup_details results)) =
           fst (backup_repository ops bf repo w)"
proof -
  obtain ok evs1 w1 where br: "backup_repository ops bf repo w = (ok, evs1, w1)"
    by (cases "backup_repository ops bf repo w")
  obtain ts w2 where ni: "now_isoformat ops w1 = (ts, w2)"
    by (cases "now_isoformat ops w1")
  define detail where
    "detail = \<lparr>repo_name = name repo, detail_full_name = Some (full_name repo), success = ok,
               timestamp = ts, detail_private = Some (private_repo repo),
               size_kb = Some (size_repo repo), detail_error = None\<rparr>"
  define results2 where
    "results2 =
       (if ok
        then results\<lparr>backup_details := backup_details results @ [detail],
               successful_backups := successful_backups results + 1\<rparr>
        else results\<lparr>backup_details := backup_details results @ [detail],
               failed_backups := failed_backups results + 1\<rparr>)"
  obtain evs2 where rest: "backup_loop ops bf repos results2 w2 = (r, evs2, w')"
    using assms br ni
    by (auto simp: Let_def results2_def detail_def split: prod.splits if_splits)
  from backup_loop_details [OF rest] obtain new where
    "backup_details r = backup_details results2 @ new"
    by blast
  then have "backup_details r ! length (backup_details results) = detail"
    by (simp add: results2_def nth_append)
  then show ?thesis
    using br by (simp add: detail_def)
qed

text \<open>
  C4. When the clone exits with a code other than 0 or times out, the backup of that
  repository returns false and calls nothing but the removal of the temporary directory
  afterwards: no archive is written, no folder is created, nothing is uploaded. The
  outcome that either kind of run records for the repository has \<open>success = False\<close>.
\<close>

theorem clone_failure_stops:
  assumes tmp: "mkdtemp ops w = (temp_dir, w1)"
    and cl: "git_clone_mirror ops (clone_url repo) (temp_dir @ ''/'' @ name repo) w1 = (cr, w2)"
    and fail: "(\<exists>returncode stderr. cr = Returned (returncode, stderr) \<and> returncode \<noteq> 0) \<or>
               (\<exists>m. cr = Raised (TimeoutExpired m))"
  shows "fst (backup_repository ops bf repo w) = False \<and>
         calls_of (fst (snd (backup_repository ops bf repo w))) =
           [Mkdtemp, GitCloneMirror (clone_url repo) (temp_dir @ ''/'' @ name repo),
            Rmtree temp_dir] \<and>
         success (backup_details (fst (backup_loop ops bf (repo # repos) results w)) !
                    length (backup_details results)) = False \<and>
         repo_name (backup_details (fst (backup_loop ops bf (repo # repos) results w)) !
                    length (backup_details results)) = name repo \<and>
         success (last (backup_details (fst (backup_resolved ops bf repo results' w)))) = False"
proof -
  from fail have "\<not> clone_ok cr"
    by (auto simp: clone_ok_def)
  from clone_steps_fail [OF cl this, of bf] obtain evs where
    cs: "clone_steps ops bf repo temp_dir w1 = (False, evs, w2)" and
    calls: "calls_of evs = [GitCloneMirror (clone_url repo) (temp_dir @ ''/'' @ name repo)]"
    by blast
  have br: "backup_repository ops bf repo w =
              (False, [Call Mkdtemp] @ evs @ [Call (Rmtree temp_dir)], rmtree ops temp_dir w2)"
    using tmp cs by (simp add: backup_repository_def)
  obtain r evs' w' where loop: "backup_loop ops bf (repo # repos) results w = (r, evs', w')"
    by (cases "backup_loop ops bf (repo # repos) results w")
  have "success (last (backup_details (fst (backup_resolved ops bf repo results' w)))) = False"
    using br by (simp add: backup_resolved_def Let_def split: prod.splits)
  with backup_loop_head_detail [OF loop] br calls loop show ?thesis
    by simp
qed

text \<open>The hypotheses of C4 hold in a world whose clone exits with 128.\<close>

theorem clone_failure_stops_witness:
  "mkdtemp clone_denied_ops () = (''/tmp/t'', ()) \<and>
   git_clone_mirror clone_denied_ops (clone_url repo_a) (''/tmp/t'' @ ''/'' @ name repo_a) () =
     (Returned (128, ''fatal: repository not found''), ()) \<and>
   (128::int) \<noteq> 0 \<and>
   fst (backup_repository clone_denied_ops ''/Projects'' repo_a ()) = False \<and>
   calls_of (fst (snd (backup_repository clone_denied_ops ''/Projects'' repo_a ()))) =
     [Mkdtemp, GitCloneMirror ''https://h/u/a.git'' ''/tmp/t/a'', Rmtree ''/tmp/t''] \<and>
   success (backup_details
     (fst (backup_loop clone_denied_ops ''/Projects'' [repo_a] initial_all_results ())) ! 0) = False"
proof -
  have tmp: "mkdtemp clone_denied_ops () = (''/tmp/t'', ())"
    by (simp add: clone_denied_ops_def calm_ops_def)
  have cl: "git_clone_mirror clone_denied_ops (clone_url repo_a) (''/tmp/t'' @ ''/'' @ name repo_a) () =
              (Returned (128, ''fatal: repository not found''), ())"
    by (simp add: clone_denied_ops_def calm_ops_def)
  have fail: "(\<exists>returncode stderr. Returned (128, ''fatal: repository not found'') =
                  Returned (returncode, stderr) \<and> returncode \<noteq> (0::int)) \<or>
              (\<exists>m. (Returned (128, ''fatal: repository not found'') :: (int \<times> string) result) =
                  Raised (TimeoutExpired m))"
    by simp
  from clone_failure_stops [OF tmp cl fail, of "''/Projects''" "[]" initial_all_results] tmp cl
  show ?thesis
    by (simp add: repo_a_def initial_all_results_def)
qed

text \<open>
  C1, as amended. With the answers of the six calls named, the backup of one repository
  returns true exactly when the clone exited with 0, the archive was written, the call
  of \<^verbatim>\<open>create_folder\<close> raised nothing and \<^verbatim>\<open>upload_file\<close> returned true. A failed
  clone, a failed archive and an exception out of \<^verbatim>\<open>create_folder\<close> each end the
  attempt before any later step is called. The boolean that \<^verbatim>\<open>create_folder\<close> returns
  is not among the conditions.
\<close>

theorem backup_repository_true_iff:
  assumes tmp: "mkdtemp ops w = (temp_dir, w1)"
    and cl: "git_clone_mirror ops (clone_url repo) (temp_dir @ ''/'' @ name repo) w1 = (cr, w2)"
    and ts: "now_strftime ops w2 = (stamp, w3)"
    and zw: "zip_write ops (temp_dir @ ''/'' @ name repo @ ''_'' @ stamp @ ''.zip'')
               (archive_entries (read_tree ops (temp_dir @ ''/'' @ name repo) w3)) w3 = (zr, w4)"
    and cf: "create_folder ops (bf @ ''/'' @ name repo) w4 = (fr, fevs, w5)"
    and up: "upload_file ops (temp_dir @ ''/'' @ name repo @ ''_'' @ stamp @ ''.zip'')
               (bf @ ''/'' @ name repo @ ''/'' @ name repo @ ''_'' @ stamp @ ''.zip'')
               overwrite_default w5 = (ur, uevs, w6)"
    and run: "backup_repository ops bf repo w = (ok, evs, w')"
  shows "(ok \<longleftrightarrow> clone_ok cr \<and> returned zr \<and> returned fr \<and> ur) \<and>
         (\<not> clone_ok cr \<longrightarrow>
            calls_of evs =
              [Mkdtemp, GitCloneMirror (clone_url repo) (temp_dir @ ''/'' @ name repo),
               Rmtree temp_dir]) \<and>
         (clone_ok cr \<and> \<not> returned zr \<longrightarrow>
            calls_of evs =
              [Mkdtemp, GitCloneMirror (clone_url repo) (temp_dir @ ''/'' @ name repo),
               ZipWrite (temp_dir @ ''/'' @ name repo @ ''_'' @ stamp @ ''.zip'')
                 (archive_entries (read_tree ops (temp_dir @ ''/'' @ name repo) w3)),
               Rmtree temp_dir]) \<and>
         (clone_ok cr \<and> returned zr \<and> \<not> returned fr \<longrightarrow>
            calls_of evs =
              [Mkdtemp, GitCloneMirror (clone_url repo) (temp_dir @ ''/'' @ name repo),
               ZipWrite (temp_dir @ ''/'' @ name repo @ ''_'' @ stamp @ ''.zip'')
                 (archive_entries (read_tree ops (temp_dir @ ''/'' @ name repo) w3)),
               FilesCreateFolderV2 (bf @ ''/'' @ name repo), Rmtree temp_dir]) \<and>
         (clone_ok cr \<and> returned zr \<and> returned fr \<longrightarrow>
            calls_of evs =
              [Mkdtemp, GitCloneMirror (clone_url repo) (temp_dir @ ''/'' @ name repo),
               ZipWrite (temp_dir @ ''/'' @ name repo @ ''_'' @ stamp @ ''.zip'')
                 (archive_entries (read_tree ops (temp_dir @ ''/'' @ name repo) w3)),
               FilesCreateFolderV2 (bf @ ''/'' @ name repo)] @ calls_of uevs @ [Rmtree temp_dir])"
  using backup_repository_trace [OF tmp refl cl ts refl refl refl zw cf up run]
  by simp

text \<open>The hypotheses of the amended C1 hold in the world where every call succeeds.\<close>

theorem backup_repository_true_iff_witness:
  "fst (backup_repository (calm_ops [repo_a]) ''/Projects'' repo_a ()) \<and>
   clone_ok (fst (git_clone_mirror (calm_ops [repo_a]) ''https://h/u/a.git'' ''/tmp/t/a'' ())) \<and>
   fst (create_folder (calm_ops [repo_a]) ''/Projects/a'' ()) = Returned True \<and>
   fst (upload_file (calm_ops [repo_a]) ''/tmp/t/a_20240101_120000.zip''
          ''/Projects/a/a_20240101_120000.zip'' True ())"
proof -
  let ?ops = "calm_ops [repo_a]"
  have tmp: "mkdtemp ?ops () = (''/tmp/t'', ())"
    and cl: "git_clone_mirror ?ops (clone_url repo_a) (''/tmp/t'' @ ''/'' @ name repo_a) () =
               (Returned (0, []), ())"
    and ts: "now_strftime ?ops () = (''20240101_120000'', ())"
    and zw: "zip_write ?ops (''/tmp/t'' @ ''/'' @ name repo_a @ ''_'' @ ''20240101_120000'' @ ''.zip'')
               (archive_entries (read_tree ?ops (''/tmp/t'' @ ''/'' @ name repo_a) ())) () =
               (Returned (), ())"
    by (simp_all add: calm_ops_def)
  have cf: "create_folder ?ops (''/Projects'' @ ''/'' @ name repo_a) () =
              (Returned True,
               [Call (FilesCreateFolderV2 ''/Projects/a''), Log INFO ''Created folder: /Projects/a''],
               ())"
    by (simp add: calm_ops_def create_folder_def repo_a_def)
  obtain uevs where
    up: "upload_file ?ops (''/tmp/t'' @ ''/'' @ name repo_a @ ''_'' @ ''20240101_120000'' @ ''.zip'')
           (''/Projects'' @ ''/'' @ name repo_a @ ''/'' @ name repo_a @ ''_'' @ ''20240101_120000'' @ ''.zip'')
           overwrite_default () = (True, uevs, ())"
    by (simp add: calm_ops_def upload_file_def upload_body_def)
  obtain ok evs w' where run: "backup_repository ?ops ''/Projects'' repo_a () = (ok, evs, w')"
    by (cases "backup_repository ?ops ''/Projects'' repo_a ()")
  from backup_repository_true_iff [OF tmp cl ts zw cf up run] run cf up
  show ?thesis
    by (simp add: clone_ok_def returned_def calm_ops_def repo_a_def overwrite_default_def)
qed

text \<open>
  C1 as stated fails: where the storage service refuses the folder, \<^verbatim>\<open>create_folder\<close>
  returns false, the upload is made all the same, and the backup returns true.
\<close>

theorem folder_failure_counterexample:
  "fst (create_folder folder_denied_ops ''/Projects/a'' ()) = Returned False \<and>
   fst (backup_repository folder_denied_ops ''/Projects'' repo_a ()) = True \<and>
   FilesUpload ''/Projects/a/a_20240101_120000.zip'' WriteMode_overwrite
     \<in> set (calls_of (fst (snd (backup_repository folder_denied_ops ''/Projects'' repo_a ()))))"
  by (simp add: folder_denied_ops_def world_defs run_defs)

text \<open>
  C10. The parameter \<^verbatim>\<open>overwrite\<close> of \<^verbatim>\<open>upload_file\<close> defaults to true, and every call
  that the backup of a repository makes with a write mode, the simple upload or the
  commit of an upload session, carries the mode \<^verbatim>\<open>overwrite\<close>.
\<close>

theorem backup_repository_overwrite_mode:
  "overwrite_default = True \<and>
   set (List.map_filter mode_of (calls_of (fst (snd (backup_repository ops bf repo w)))))
     \<subseteq> {WriteMode_overwrite}"
proof -
  obtain ok evs w' where run: "backup_repository ops bf repo w = (ok, evs, w')"
    by (cases "backup_repository ops bf repo w")
  have "m = WriteMode_overwrite" if "c \<in> set (calls_of evs)" "mode_of c = Some m" for c m
    using backup_repository_overwrites [OF run that] .
  then show ?thesis
    using run by (auto simp: overwrite_default_def List.map_filter_def)
qed

text \<open>
  C10 is not vacuous: an archive of 2048 bytes goes up in one call with the mode
  \<^verbatim>\<open>overwrite\<close>, and one of 150 MiB and a byte goes up in a session whose commit, after
  37 chunks, carries that mode.
\<close>

theorem backup_repository_overwrite_mode_witness:
  "List.map_filter mode_of (calls_of (fst (snd (backup_repository (calm_ops [repo_a]) ''/Projects''
      repo_a ())))) = [WriteMode_overwrite] \<and>
   UploadSessionFinish 2097153 155189248 ''/Projects/a/a_20240101_120000.zip'' WriteMode_overwrite
     \<in> set (calls_of (fst (snd (backup_repository large_ops ''/Projects'' repo_a ())))) \<and>
   set (List.map_filter mode_of (calls_of (fst (snd (backup_repository large_ops
      ''/Projects'' repo_a ()))))) \<subseteq> {WriteMode_overwrite}"
proof -
  have "List.map_filter mode_of (calls_of (fst (snd (backup_repository (calm_ops [repo_a])
      ''/Projects'' repo_a ())))) = [WriteMode_overwrite]"
    by (simp add: world_defs run_defs List.map_filter_def)
  moreover have "UploadSessionFinish 2097153 155189248 ''/Projects/a/a_20240101_120000.zip''
      WriteMode_overwrite
     \<in> set (calls_of (fst (snd (backup_repository large_ops ''/Projects'' repo_a ()))))"
    by (simp add: large_ops_def world_defs run_defs upload_large_file_def
        upload_session_loop.simps CHUNK_SIZE_def)
  ultimately show ?thesis
    using backup_repository_overwrite_mode [of large_ops "''/Projects''" repo_a "()"]
    by simp
qed



lemma upload_calls_not_listing:
  "list_all (upload_call m) cs \<Longrightarrow> filter is_listing cs = []"
proof (induction cs)
  case Nil
  show ?case by simp
next
  case (Cons c cs)
  then show ?case by (cases c) simp_all
qed

lemma backup_repository_no_listing:
  assumes run: "backup_repository ops bf repo w = (ok, evs, w')"
  shows "listing_count evs = 0"
proof -
  obtain temp_dir w1 cr w2 stamp w3 zr w4 fr fevs w5 ur uevs w6 where
    tmp: "mkdtemp ops w = (temp_dir, w1)" and
    cl: "git_clone_mirror ops (clone_url repo) (temp_dir @ ''/'' @ name repo) w1 = (cr, w2)" and
    ts: "now_strftime ops w2 = (stamp, w3)" and
    zw: "zip_write ops (temp_dir @ ''/'' @ name repo @ ''_'' @ stamp @ ''.zip'')
       (archive_entries (read_tree ops (temp_dir @ ''/'' @ name repo) w3)) w3 = (zr, w4)" and
    cf: "create_folder ops (bf @ ''/'' @ name repo) w4 = (fr, fevs, w5)" and
    up: "upload_file ops (temp_dir @ ''/'' @ name repo @ ''_'' @ stamp @ ''.zip'')
       (bf @ ''/'' @ name repo @ ''/'' @ name repo @ ''_'' @ stamp @ ''.zip'')
       overwrite_default w5 = (ur, uevs, w6)"
    by (rule backup_repository_cases)
  have "filter is_listing (calls_of uevs) = []"
    using upload_file_calls [OF up] upload_calls_not_listing by blast
  with backup_repository_trace [OF tmp refl cl ts refl refl refl zw cf up run]
  show ?thesis
    by (simp add: listing_count_def)
qed

section \<open>Properties of a full run\<close>






lemma skip_log_cloned [simp]: "cloned_urls (concat (map (skip_log ex ip) repos)) = []"
  by (induction repos) (simp_all add: skip_log_def)




text \<open>
  C9. When the listing call raises, the full run makes no other call, attempts no
  repository and returns a summary with the \<open>error\<close> field set, no outcome and no
  successful backup.
\<close>

theorem listing_error_aborts:
  assumes "get_user_repositories ops u w = (Raised e, w1)"
    and "backup_all_repositories ops bf u ex ip w = (r, evs, w')"
  shows "error r = Some (str_exn e) \<and> successful_backups r = 0 \<and> failed_backups r = 0 \<and>
         backup_details r = [] \<and> calls_of evs = [GetUserRepositories u] \<and> cloned_urls evs = []"
  using assms
  by (auto simp: backup_all_repositories_def initial_all_results_def)

text \<open>The hypotheses of C9 hold in the world whose listing call fails.\<close>

theorem listing_error_aborts_witness:
  "get_user_repositories listing_down_ops None () = (Raised (HTTPError ''503 Server Error''), ()) \<and>
   error (fst (backup_all_repositories listing_down_ops ''/Projects'' None None True ())) =
     Some ''503 Server Error'' \<and>
   successful_backups (fst (backup_all_repositories listing_down_ops ''/Projects'' None None True ()))
     = 0 \<and>
   calls_of (fst (snd (backup_all_repositories listing_down_ops ''/Projects'' None None True ()))) =
     [GetUserRepositories None]"
proof -
  have listing: "get_user_repositories listing_down_ops None () =
                   (Raised (HTTPError ''503 Server Error''), ())"
    by (simp add: listing_down_ops_def calm_ops_def)
  obtain r evs w' where
    run: "backup_all_repositories listing_down_ops ''/Projects'' None None True () = (r, evs, w')"
    by (cases "backup_all_repositories listing_down_ops ''/Projects'' None None True ()")
  from listing_error_aborts [OF listing run] listing run show ?thesis
    by simp
qed

section \<open>Properties of a targeted run\<close>










lemma backup_resolved_no_listing:
  "backup_resolved ops bf repo results w = (r, evs, w') \<Longrightarrow> listing_count evs = 0"
  by (auto simp: backup_resolved_def Let_def split: prod.splits dest: backup_repository_no_listing)

lemma record_failure_no_listing:
  "record_failure ops rname e results w = (r, evs, w') \<Longrightarrow> listing_count evs = 0"
  by (auto simp: record_failure_def Let_def split: prod.splits)

lemma specific_step_listing:
  assumes "\<not> truthy username"
    and "specific_step ops bf username rname results w = (r, evs, w')"
  shows "listing_count evs = 1"
  using assms
  by (auto simp: specific_step_def
      split: prod.splits result.splits option.splits
      dest: backup_resolved_no_listing record_failure_no_listing)

lemma specific_loop_listing:
  assumes "\<not> truthy username"
    and "specific_loop ops bf username rnames results w = (r, evs, w')"
  shows "listing_count evs = length rnames"
  using assms(2)
proof (induction rnames arbitrary: results w r evs w')
  case Nil
  then show ?case by auto
next
  case (Cons rname rnames)
  obtain r1 evs1 w1 where st: "specific_step ops bf username rname results w = (r1, evs1, w1)"
    by (cases "specific_step ops bf username rname results w")
  obtain evs2 where rest: "specific_loop ops bf username rnames r1 w1 = (r, evs2, w')"
    and evs: "evs = evs1 @ evs2"
    using Cons.prems st by (auto split: prod.splits)
  from Cons.IH [OF rest] specific_step_listing [OF assms(1) st] evs show ?case
    by simp
qed

text \<open>
  C6, as amended. A targeted run without a user name fetches the listing once for every
  requested name, as many times as there are names. A name that is absent from the
  listing fetched for it adds one to \<open>not_found_repos\<close>, logs a line, records no outcome
  and raises nothing.
\<close>

theorem listing_fetched_for_each_name:
  assumes "\<not> truthy username"
  shows "listing_count (fst (snd (backup_specific_repositories ops bf repo_names username w))) =
           length repo_names \<and>
         (get_user_repositories ops None w2 = (Returned all_repos, w3) \<and>
          rname \<notin> name ` set all_repos \<longrightarrow>
            specific_step ops bf username rname results w2 =
              (results\<lparr>not_found_repos := not_found_repos results + 1\<rparr>,
               [Call (GetUserRepositories None), Log ERROR (''Repository not found: '' @ rname)],
               w3))"
proof
  obtain r evs w' where
    run: "specific_loop ops bf username repo_names
            \<lparr>successful_backups = 0, failed_backups = 0, backup_details = [],
             requested_repos = length repo_names, not_found_repos = 0\<rparr> w = (r, evs, w')"
    by (cases "specific_loop ops bf username repo_names
            \<lparr>successful_backups = 0, failed_backups = 0, backup_details = [],
             requested_repos = length repo_names, not_found_repos = 0\<rparr> w")
  from specific_loop_listing [OF assms run] run
  show "listing_count (fst (snd (backup_specific_repositories ops bf repo_names username w))) =
           length repo_names"
    by (simp add: backup_specific_repositories_def)
next
  show "get_user_repositories ops None w2 = (Returned all_repos, w3) \<and>
          rname \<notin> name ` set all_repos \<longrightarrow>
            specific_step ops bf username rname results w2 =
              (results\<lparr>not_found_repos := not_found_repos results + 1\<rparr>,
               [Call (GetUserRepositories None), Log ERROR (''Repository not found: '' @ rname)],
               w3)"
  proof
    assume a: "get_user_repositories ops None w2 = (Returned all_repos, w3) \<and>
          rname \<notin> name ` set all_repos"
    then have "find (\<lambda>r. name r = rname) all_repos = None"
      by (auto simp: find_None_iff)
    with a assms show "specific_step ops bf username rname results w2 =
              (results\<lparr>not_found_repos := not_found_repos results + 1\<rparr>,
               [Call (GetUserRepositories None), Log ERROR (''Repository not found: '' @ rname)],
               w3)"
      by (simp add: specific_step_def)
  qed
qed

text \<open>The hypotheses of the amended C6 hold for a listing of one repository and two names.\<close>

theorem listing_fetched_for_each_name_witness:
  "\<not> truthy None \<and>
   listing_count (fst (snd (backup_specific_repositories (calm_ops [repo_a]) ''/Projects''
     [''a'', ''x''] None ()))) = 2 \<and>
   get_user_repositories (calm_ops [repo_a]) None () = (Returned [repo_a], ()) \<and>
   ''x'' \<notin> name ` set [repo_a] \<and>
   not_found_repos (fst (specific_step (calm_ops [repo_a]) ''/Projects'' None ''x''
     \<lparr>successful_backups = 0, failed_backups = 0, backup_details = [],
      requested_repos = 1, not_found_repos = 0\<rparr> ())) = 1"
  using listing_fetched_for_each_name [where username = None and ops = "calm_ops [repo_a]"
      and bf = "''/Projects''" and repo_names = "[''a'', ''x'']" and w = "()" and ?w2.0 = "()"
      and ?w3.0 = "()" and all_repos = "[repo_a]" and rname = "''x''"
      and results = "\<lparr>successful_backups = 0, failed_backups = 0, backup_details = [],
      requested_repos = 1, not_found_repos = 0\<rparr>"]
  by (simp add: calm_ops_def repo_a_def)

text \<open>
  C6 as stated fails: for two requested names the listing is fetched twice, and where
  the second answer differs from the first, the same name is found once and not found
  once.
\<close>

theorem listing_fetched_twice_counterexample:
  "listing_count (fst (snd (backup_specific_repositories shifting_ops ''/Projects''
     [''a'', ''a''] None 0))) = 2 \<and>
   successful_backups (fst (backup_specific_repositories shifting_ops ''/Projects''
     [''a'', ''a''] None 0)) = 1 \<and>
   not_found_repos (fst (backup_specific_repositories shifting_ops ''/Projects''
     [''a'', ''a''] None 0)) = 1"
  by (simp add: backup_specific_repositories_def specific_step_def backup_resolved_def
      shifting_ops_def world_defs run_defs)

text \<open>
  C5. With a user name given, a requested name that the hosting service does not know
  makes \<^verbatim>\<open>get_repository\<close> raise; the run goes on to the next name, but the name is
  counted in \<open>failed_backups\<close> and \<open>not_found_repos\<close> stays 0.
\<close>

theorem missing_repository_counted_failed:
  "get_repository (calm_ops [repo_a]) ''alice'' ''ghost'' () =
     (Raised (HTTPError ''404 Client Error: Not Found''), ()) \<and>
   requested_repos (fst (backup_specific_repositories (calm_ops [repo_a]) ''/Projects''
     [''ghost'', ''a''] (Some ''alice'') ())) = 2 \<and>
   not_found_repos (fst (backup_specific_repositories (calm_ops [repo_a]) ''/Projects''
     [''ghost'', ''a''] (Some ''alice'') ())) = 0 \<and>
   failed_backups (fst (backup_specific_repositories (calm_ops [repo_a]) ''/Projects''
     [''ghost'', ''a''] (Some ''alice'') ())) = 1 \<and>
   successful_backups (fst (backup_specific_repositories (calm_ops [repo_a]) ''/Projects''
     [''ghost'', ''a''] (Some ''alice'') ())) = 1 \<and>
   map repo_name (backup_details (fst (backup_specific_repositories (calm_ops [repo_a])
     ''/Projects'' [''ghost'', ''a''] (Some ''alice'') ()))) = [''ghost'', ''a'']"
  by (simp add: backup_specific_repositories_def specific_step_def backup_resolved_def
      record_failure_def world_defs run_defs)

end
